theory Spec2Isabelle
  imports Main "HOL-Library.Multiset"
begin

section \<open>The word-frequency pipeline of main.py\<close>

text \<open>
  The program reads the text of a PDF, cuts it into lowercase word tokens, drops noise,
  lemmatizes every token with a part-of-speech hint and counts the lemmas in three
  tables: the lemmas found in a known-words list, the other lemmas, and all lemmas.

  Python strings are modelled as \<open>string\<close>. What the program takes from Python's
  string library and from NLTK, pdfplumber and the file system is not part of the
  repository; it is collected in the record \<open>env\<close> and every function of the program
  takes that record as its first argument. Nothing is assumed about these fields unless
  a theorem says so.
\<close>

subsection \<open>Data\<close>

text \<open>The four WordNet part-of-speech constants the program uses.\<close>

datatype wn_pos = ADJ | VERB | NOUN | ADV

text \<open>
  A \<open>Counter\<close> is a dictionary from key to count that keeps the order in which keys
  were first inserted: an association list with distinct keys.
\<close>

type_synonym counter = "(string \<times> nat) list"

text \<open>The exceptions that nothing in the program catches.\<close>

datatype error = OSError | UnicodeDecodeError

record env =
  \<comment> \<open>\<open>str.lower\<close>, one character of \<open>\w\<close>, of \<open>str.isdigit\<close>, of \<open>str.isspace\<close>\<close>
  lower :: "string \<Rightarrow> string"
  isword :: "char \<Rightarrow> bool"
  isdigit_char :: "char \<Rightarrow> bool"
  isspace :: "char \<Rightarrow> bool"
  \<comment> \<open>\<open>set(stopwords.words('english'))\<close>\<close>
  stop_words :: "string set"
  \<comment> \<open>\<open>WordNetLemmatizer().lemmatize(word, pos)\<close>\<close>
  lemmatize :: "string \<Rightarrow> wn_pos \<Rightarrow> string"
  \<comment> \<open>\<open>wordnet.morphy(form, pos=None)\<close>; \<open>None\<close> when the form is not found\<close>
  morphy :: "string \<Rightarrow> wn_pos option \<Rightarrow> string option"
  \<comment> \<open>\<open>nltk.pos_tag(tokens)\<close>: a list of pairs (token, tag)\<close>
  pos_tag :: "string list \<Rightarrow> (string \<times> string) list"
  \<comment> \<open>\<open>os.path.isfile\<close>, \<open>os.path.isdir\<close>; \<open>os.makedirs\<close> (False: it raises)\<close>
  isfile :: "string \<Rightarrow> bool"
  isdir :: "string \<Rightarrow> bool"
  makedirs :: "string \<Rightarrow> bool"
  \<comment> \<open>opening a text file as UTF-8 and reading it to the end, or the exception raised\<close>
  read_text :: "string \<Rightarrow> error + string"
  \<comment> \<open>\<open>pdfplumber.open\<close> and \<open>extract_text\<close> of every page, a page without text giving
     \<open>None\<close>; \<open>None\<close> for the whole document when any of this raises\<close>
  extract_pages :: "string \<Rightarrow> string option list option"

text \<open>How a run of \<open>main\<close> ends, up to the three tables of lines 176 to 178.\<close>

record tables =
  excluded_freq :: counter
  unknown_freq :: counter
  all_freq :: counter

datatype outcome = SysExit int | Raised error | Tables tables

subsection \<open>Python's string and container operations\<close>

definition startswith :: "string \<Rightarrow> string \<Rightarrow> bool" where
  "startswith s p = (take (length p) s = p)"

definition endswith :: "string \<Rightarrow> string \<Rightarrow> bool" where
  "endswith s p = (length p \<le> length s \<and> drop (length s - length p) s = p)"

text \<open>
  \<open>s.replace(old, new)\<close> for a non-empty \<open>old\<close>: the occurrences of \<open>old\<close> are found
  from the left, without overlap, and the text put in for one is not searched again.
\<close>

function replace :: "string \<Rightarrow> string \<Rightarrow> string \<Rightarrow> string" where
  "replace old new [] = []"
| "replace old new (c # cs) =
     (if old \<noteq> [] \<and> take (length old) (c # cs) = old
      then new @ replace old new (drop (length old) (c # cs))
      else c # replace old new cs)"
  by pat_completeness auto
termination
  by (relation "measure (\<lambda>(old, new, s). length s)") (auto simp: neq_Nil_conv)

text \<open>\<open>s.strip()\<close>: the whitespace at both ends goes.\<close>

definition strip :: "env \<Rightarrow> string \<Rightarrow> string" where
  "strip e s = rev (dropWhile (isspace e) (rev (dropWhile (isspace e) s)))"

text \<open>\<open>s.isdigit()\<close>: at least one character, and every character a digit.\<close>

definition isdigit :: "env \<Rightarrow> string \<Rightarrow> bool" where
  "isdigit e s = (s \<noteq> [] \<and> list_all (isdigit_char e) s)"

text \<open>
  \<open>re.findall(r'\b\w+\b', s)\<close>. The scan goes from the left; \<open>cur\<close> holds the word
  characters of the match under way. A match starts at a word character that follows a
  non-word character or the start, takes word characters greedily and ends before the
  next non-word character or at the end, where \<open>\b\<close> holds.
\<close>

fun findall_words :: "env \<Rightarrow> string \<Rightarrow> string \<Rightarrow> string list" where
  "findall_words e cur [] = (if cur = [] then [] else [cur])"
| "findall_words e cur (c # cs) =
     (if isword e c then findall_words e (cur @ [c]) cs
      else (if cur = [] then [] else [cur]) @ findall_words e [] cs)"

text \<open>Iterating over an open text file: the lines, each with its line break.\<close>

fun readlines :: "string \<Rightarrow> string \<Rightarrow> string list" where
  "readlines cur [] = (if cur = [] then [] else [cur])"
| "readlines cur (c # cs) =
     (if c = CHR ''\<newline>'' then (cur @ [c]) # readlines [] cs
      else readlines (cur @ [c]) cs)"

text \<open>\<open>Counter(xs)\<close>: every element in turn gets \<open>c[x] = c.get(x, 0) + 1\<close>.\<close>

fun counter_add :: "string \<Rightarrow> counter \<Rightarrow> counter" where
  "counter_add x [] = [(x, 1)]"
| "counter_add x ((k, n) # c) =
     (if k = x then (k, Suc n) # c else (k, n) # counter_add x c)"

definition Counter :: "string list \<Rightarrow> counter" where
  "Counter xs = foldl (\<lambda>c x. counter_add x c) [] xs"

text \<open>\<open>c.get(k, 0)\<close>, which is also \<open>c[k]\<close> on a \<open>Counter\<close>.\<close>

definition counter_get :: "counter \<Rightarrow> string \<Rightarrow> nat" where
  "counter_get c k = (case map_of c k of None \<Rightarrow> 0 | Some n \<Rightarrow> n)"

definition keys :: "counter \<Rightarrow> string set" where
  "keys c = fst ` set c"

subsection \<open>The program\<close>

definition get_wordnet_pos :: "string \<Rightarrow> wn_pos" where
  "get_wordnet_pos tag =
     (if startswith tag ''J'' then ADJ
      else if startswith tag ''V'' then VERB
      else if startswith tag ''N'' then NOUN
      else if startswith tag ''R'' then ADV
      else NOUN)"

text \<open>
  \<open>normalize_word\<close>: \<open>tag or wordnet.NOUN\<close> is the tag when one is given (every WordNet
  tag is a non-empty string); \<open>morphy\<close> is called with the lemma alone; its result is
  used when it is truthy, that is neither \<open>None\<close> nor the empty string.
\<close>

definition normalize_word :: "env \<Rightarrow> string \<Rightarrow> wn_pos option \<Rightarrow> string" where
  "normalize_word e word tag =
     (let lemma = lemmatize e word (case tag of None \<Rightarrow> NOUN | Some t \<Rightarrow> t);
          morphed = morphy e lemma None
      in case morphed of
           None \<Rightarrow> lemma
         | Some m \<Rightarrow> if m \<noteq> [] then m else lemma)"

text \<open>
  \<open>load_known_words\<close>: the path is used when it is neither \<open>None\<close> nor empty and names
  a regular file. Opening or decoding that file is not guarded, so a failure there
  leaves the function as an exception.
\<close>

definition load_known_words :: "env \<Rightarrow> string option \<Rightarrow> error + string set" where
  "load_known_words e filepath =
     (case filepath of
        None \<Rightarrow> Inr {}
      | Some p \<Rightarrow>
          if p \<noteq> [] \<and> isfile e p then
            (case read_text e p of
               Inl err \<Rightarrow> Inl err
             | Inr content \<Rightarrow>
                 Inr (foldl (\<lambda>known_words line.
                        let w = lower e (strip e line)
                        in if w \<noteq> [] then insert (normalize_word e w None) known_words
                           else known_words)
                      {} (readlines [] content)))
          else Inr {})"

text \<open>Line 59 of \<open>clean_and_lemmatize\<close>: the two replacements, in this order.\<close>

definition unwrap_lines :: "string \<Rightarrow> string" where
  "unwrap_lines text = replace ''\<newline>'' '' '' (replace ''-\<newline>'' [] text)"

text \<open>Lines 60 and 61: the words found in the lowercased text, and those that are kept.\<close>

definition filtered_words :: "env \<Rightarrow> string \<Rightarrow> string list" where
  "filtered_words e text =
     (let words = findall_words e [] (lower e (unwrap_lines text))
      in filter (\<lambda>w. w \<notin> stop_words e \<and> \<not> isdigit e w \<and> length w \<ge> 3) words)"

definition clean_and_lemmatize :: "env \<Rightarrow> string \<Rightarrow> string list" where
  "clean_and_lemmatize e text =
     map (\<lambda>(word, tag). normalize_word e word (Some (get_wordnet_pos tag)))
         (pos_tag e (filtered_words e text))"

text \<open>The text \<open>process_pdf\<close> collects: every page with text, followed by a space.\<close>

definition page_texts :: "string option list \<Rightarrow> string" where
  "page_texts pages =
     foldl (\<lambda>text page_text.
              case page_text of
                None \<Rightarrow> text
              | Some t \<Rightarrow> if t \<noteq> [] then text @ t @ '' '' else text)
           [] pages"

definition process_pdf :: "env \<Rightarrow> string \<Rightarrow> string list option" where
  "process_pdf e pdf_path =
     (case extract_pages e pdf_path of
        None \<Rightarrow> None
      | Some pages \<Rightarrow>
          let text = page_texts pages
          in if strip e text = [] then None
             else Some (clean_and_lemmatize e text))"

text \<open>Lines 173 to 178 of \<open>main\<close>.\<close>

definition classify :: "string list \<Rightarrow> string set \<Rightarrow> tables" where
  "classify lemmatized_words known_words =
     (let excluded_words = filter (\<lambda>w. w \<in> known_words) lemmatized_words;
          unknown_words = filter (\<lambda>w. w \<notin> known_words) lemmatized_words
      in \<lparr>excluded_freq = Counter excluded_words,
          unknown_freq = Counter unknown_words,
          all_freq = Counter lemmatized_words\<rparr>)"

text \<open>
  \<open>main\<close>, from the parsed arguments to the three tables. The CSV and word-cloud
  writers that follow line 178 belong to the reporting side and are not modelled.
  \<open>default_dir\<close> stands for the directory \<open>results/<name of the PDF>\<close> under the
  working directory.
\<close>

record args =
  pdf_path :: string
  num_top_words :: int
  known_words_file :: "string option"
  output_dir :: "string option"

text \<open>
  Lines 155 to 166: the directory given with \<open>-o\<close> is created when it does not exist,
  and a failure there ends the run with status 1; without \<open>-o\<close> the default
  directory is created, unguarded.
\<close>

definition output_directory :: "env \<Rightarrow> string \<Rightarrow> string option \<Rightarrow> outcome + string" where
  "output_directory e default_dir od =
     (case od of
        Some d \<Rightarrow>
          if d \<noteq> [] then
            (if \<not> isdir e d \<and> \<not> makedirs e d then Inl (SysExit 1) else Inr d)
          else (if makedirs e default_dir then Inr default_dir else Inl (Raised OSError))
      | None \<Rightarrow> (if makedirs e default_dir then Inr default_dir else Inl (Raised OSError)))"

definition main :: "env \<Rightarrow> string \<Rightarrow> args \<Rightarrow> outcome" where
  "main e default_dir a =
     (if \<not> isfile e (pdf_path a) \<or> \<not> endswith (lower e (pdf_path a)) ''.pdf''
      then SysExit 1
      else if num_top_words a \<le> 0 then SysExit 1
      else
        (case output_directory e default_dir (output_dir a) of
           Inl stop \<Rightarrow> stop
         | Inr dir \<Rightarrow>
             (case load_known_words e (known_words_file a) of
                Inl err \<Rightarrow> Raised err
              | Inr known_words \<Rightarrow>
                  (case process_pdf e (pdf_path a) of
                     None \<Rightarrow> SysExit 1
                   | Some lemmatized_words \<Rightarrow>
                       Tables (classify lemmatized_words known_words)))))"

subsection \<open>What the specification says, in its own words\<close>


text \<open>
  The maximal runs of word characters of a text, from the left: before each run a gap
  without word characters, the run itself not empty and of word characters only, and
  after it the end of the text or a character that is not a word character.
\<close>

fun maximal_runs :: "(char \<Rightarrow> bool) \<Rightarrow> string \<Rightarrow> string list \<Rightarrow> bool" where
  "maximal_runs P s [] = (\<forall>c \<in> set s. \<not> P c)"
| "maximal_runs P s (t # ts) =
     (\<exists>gap rest. s = gap @ t @ rest \<and> (\<forall>c \<in> set gap. \<not> P c)
        \<and> t \<noteq> [] \<and> (\<forall>c \<in> set t. P c)
        \<and> (case rest of [] \<Rightarrow> True | c # _ \<Rightarrow> \<not> P c)
        \<and> maximal_runs P rest ts)"

subsection \<open>A small environment for examples\<close>

text \<open>
  Python's character classes on ASCII, a handful of stopwords, a lexicon of a few
  entries, a tagger that knows three words, and a file system with one PDF and two
  word lists, one of which cannot be opened.
\<close>

definition ascii_isupper :: "char \<Rightarrow> bool" where
  "ascii_isupper c = (let n = of_char c :: nat in 65 \<le> n \<and> n \<le> 90)"

fun ascii_lower :: "char \<Rightarrow> char" where
  "ascii_lower (Char b0 b1 b2 b3 b4 b5 b6 b7) =
     (if ascii_isupper (Char b0 b1 b2 b3 b4 b5 b6 b7) then Char b0 b1 b2 b3 b4 True b6 b7
      else Char b0 b1 b2 b3 b4 b5 b6 b7)"

definition ascii_isdigit :: "char \<Rightarrow> bool" where
  "ascii_isdigit c = (let n = of_char c :: nat in 48 \<le> n \<and> n \<le> 57)"

definition ascii_isword :: "char \<Rightarrow> bool" where
  "ascii_isword c =
     (let n = of_char c :: nat
      in (48 \<le> n \<and> n \<le> 57) \<or> (65 \<le> n \<and> n \<le> 90) \<or> n = 95 \<or> (97 \<le> n \<and> n \<le> 122))"

definition ascii_isspace :: "char \<Rightarrow> bool" where
  "ascii_isspace c = (let n = of_char c :: nat in (9 \<le> n \<and> n \<le> 13) \<or> (28 \<le> n \<and> n \<le> 32))"

definition sample_lemmatize :: "string \<Rightarrow> wn_pos \<Rightarrow> string" where
  "sample_lemmatize word pos =
     (if word = ''cats'' then ''cat''
      else if word = ''runs'' then ''run''
      else if word = ''running'' \<and> pos = VERB then ''run''
      else if word = ''ares'' \<and> pos = NOUN then ''are''
      else word)"

definition sample_morphy :: "string \<Rightarrow> wn_pos option \<Rightarrow> string option" where
  "sample_morphy form pos =
     (if form = ''leaves'' then
        (if pos = None \<or> pos = Some NOUN then Some ''leaf''
         else if pos = Some VERB then Some ''leave''
         else None)
      else if form \<in> {''cat'', ''run'', ''fast'', ''are''} then Some form
      else None)"

definition sample_pos_tag :: "string list \<Rightarrow> (string \<times> string) list" where
  "sample_pos_tag tokens =
     map (\<lambda>w. (w, if w = ''running'' then ''VBG''
                  else if w = ''fast'' then ''RB''
                  else if w = ''leaves'' then ''JJ''
                  else ''NN'')) tokens"

definition sample_env :: env where
  "sample_env =
     \<lparr>lower = map ascii_lower, isword = ascii_isword, isdigit_char = ascii_isdigit,
      isspace = ascii_isspace,
      stop_words = {''the'', ''are'', ''and'', ''not''},
      lemmatize = sample_lemmatize, morphy = sample_morphy, pos_tag = sample_pos_tag,
      isfile = (\<lambda>p. p \<in> {''doc.pdf'', ''known.txt'', ''locked.txt''}),
      isdir = (\<lambda>p. False),
      makedirs = (\<lambda>p. True),
      read_text = (\<lambda>p. if p = ''known.txt'' then Inr ''cat\<newline>  \<newline> Runs \<newline>cats''
                       else Inl OSError),
      extract_pages = (\<lambda>p. if p = ''doc.pdf''
                           then Some [Some ''The cats are running. Cat-\<newline>Cat runs fast.'', None]
                           else None)\<rparr>"

text \<open>
  Two variants of the file system, one where the PDF holds blank pages only and one
  where it holds noise only, and the arguments of a run.
\<close>

definition blank_pdf_env :: env where
  "blank_pdf_env = sample_env\<lparr>extract_pages := \<lambda>p. Some [Some ''  \<newline> '', None, Some []]\<rparr>"


definition sample_args :: args where
  "sample_args = \<lparr>pdf_path = ''doc.pdf'', num_top_words = 10,
                   known_words_file = Some ''known.txt'', output_dir = None\<rparr>"

subsection \<open>Reading a table\<close>


section \<open>The tag mapping\<close>

lemma startswith_Cons: "startswith (c # cs) [d] = (c = d)"
  by (simp add: startswith_def)

lemma startswith_Nil: "startswith [] [d] = False"
  by (simp add: startswith_def)

text \<open>
  C4. A tag that starts with J gives ADJ, with V gives VERB, with N gives NOUN and with
  R gives ADV; the empty tag and a tag that starts with any other character give NOUN.
  The mapping is a function of the tag alone.
\<close>

theorem get_wordnet_pos_by_first_char:
  "get_wordnet_pos (CHR ''J'' # rest) = ADJ
   \<and> get_wordnet_pos (CHR ''V'' # rest) = VERB
   \<and> get_wordnet_pos (CHR ''N'' # rest) = NOUN
   \<and> get_wordnet_pos (CHR ''R'' # rest) = ADV
   \<and> get_wordnet_pos [] = NOUN
   \<and> (c \<notin> {CHR ''J'', CHR ''V'', CHR ''N'', CHR ''R''} \<longrightarrow> get_wordnet_pos (c # rest) = NOUN)"
  by (simp add: get_wordnet_pos_def startswith_Cons startswith_Nil)

theorem get_wordnet_pos_by_first_char_witness:
  "get_wordnet_pos ''JJR'' = ADJ \<and> get_wordnet_pos ''VJR'' = VERB
   \<and> get_wordnet_pos ''NJR'' = NOUN \<and> get_wordnet_pos ''RJR'' = ADV
   \<and> get_wordnet_pos [] = NOUN
   \<and> CHR ''D'' \<notin> {CHR ''J'', CHR ''V'', CHR ''N'', CHR ''R''}
   \<and> get_wordnet_pos ''DJR'' = NOUN"
  using get_wordnet_pos_by_first_char [of "''JR''" "CHR ''D''"]
  by simp

section \<open>Counting\<close>



lemma keys_counter_add: "keys (counter_add x c) = insert x (keys c)"
  by (induction x c rule: counter_add.induct) (auto simp: keys_def)

lemma distinct_counter_add:
  "distinct (map fst c) \<Longrightarrow> distinct (map fst (counter_add x c))"
proof (induction x c rule: counter_add.induct)
  case (1 x)
  then show ?case by simp
next
  case (2 x k n c)
  have "fst ` set (counter_add x c) = insert x (fst ` set c)"
    using keys_counter_add [of x c] by (simp add: keys_def)
  with 2 show ?case by auto
qed

lemma positive_counter_add:
  "\<forall>(k, n) \<in> set c. 0 < n \<Longrightarrow> \<forall>(k, n) \<in> set (counter_add x c). 0 < n"
  by (induction x c rule: counter_add.induct) auto



lemma keys_foldl: "keys (foldl (\<lambda>c x. counter_add x c) c0 xs) = keys c0 \<union> set xs"
  by (induction xs arbitrary: c0) (auto simp: keys_counter_add)

lemma distinct_foldl:
  "distinct (map fst c0) \<Longrightarrow> distinct (map fst (foldl (\<lambda>c x. counter_add x c) c0 xs))"
  by (induction xs arbitrary: c0) (auto simp: distinct_counter_add)

lemma positive_foldl:
  "\<forall>(k, n) \<in> set c0. 0 < n \<Longrightarrow>
   \<forall>(k, n) \<in> set (foldl (\<lambda>c x. counter_add x c) c0 xs). 0 < n"
proof (induction xs arbitrary: c0)
  case Nil
  then show ?case by simp
next
  case (Cons x xs)
  from Cons.prems have "\<forall>(k, n) \<in> set (counter_add x c0). 0 < n"
    by (rule positive_counter_add)
  then show ?case using Cons.IH by simp
qed



lemma keys_Counter: "keys (Counter xs) = set xs"
  by (simp add: Counter_def keys_foldl) (simp add: keys_def)

lemma distinct_Counter: "distinct (map fst (Counter xs))"
  by (simp add: Counter_def distinct_foldl)

lemma positive_Counter: "(k, n) \<in> set (Counter xs) \<Longrightarrow> 0 < n"
  using positive_foldl [of "[]" xs] by (auto simp: Counter_def)


lemma stored_Counter: "(k, n) \<in> set (Counter xs) \<Longrightarrow> counter_get (Counter xs) k = n"
  by (simp add: counter_get_def distinct_Counter)


section \<open>The classifier\<close>


text \<open>
  C9. For every list of lemmas and every set of known words, every entry of each of the
  three tables has a count above 0, and looking its key up gives that count.
\<close>

theorem classify_counts_positive:
  "(\<forall>(k, n) \<in> set (excluded_freq (classify ws known)).
      0 < n \<and> counter_get (excluded_freq (classify ws known)) k = n)
   \<and> (\<forall>(k, n) \<in> set (unknown_freq (classify ws known)).
      0 < n \<and> counter_get (unknown_freq (classify ws known)) k = n)
   \<and> (\<forall>(k, n) \<in> set (all_freq (classify ws known)).
      0 < n \<and> counter_get (all_freq (classify ws known)) k = n)"
  by (auto simp: classify_def dest: positive_Counter stored_Counter)

theorem classify_counts_positive_witness:
  "excluded_freq (classify [''cat'', ''run'', ''cat'', ''fast''] {''cat'', ''run''})
     = [(''cat'', 2), (''run'', 1)]
   \<and> unknown_freq (classify [''cat'', ''run'', ''cat'', ''fast''] {''cat'', ''run''})
     = [(''fast'', 1)]
   \<and> all_freq (classify [''cat'', ''run'', ''cat'', ''fast''] {''cat'', ''run''})
     = [(''cat'', 2), (''run'', 1), (''fast'', 1)]
   \<and> counter_get (all_freq (classify [''cat'', ''run'', ''cat'', ''fast''] {''cat'', ''run''}))
       ''cat'' = 2"
  using classify_counts_positive [of "[''cat'', ''run'', ''cat'', ''fast'']" "{''cat'', ''run''}"]
  by (simp add: classify_def Counter_def)

lemmas sample_simps = sample_env_def sample_lemmatize_def sample_morphy_def sample_pos_tag_def
  ascii_isword_def ascii_isupper_def ascii_isdigit_def ascii_isspace_def

lemmas program_simps = main_def output_directory_def load_known_words_def process_pdf_def
  page_texts_def clean_and_lemmatize_def filtered_words_def unwrap_lines_def
  normalize_word_def get_wordnet_pos_def classify_def Counter_def
  strip_def isdigit_def startswith_def endswith_def

section \<open>The normalizer\<close>




section \<open>The vocabulary loader\<close>

lemma known_words_loop:
  "foldl (\<lambda>known_words line.
            let w = f line in if w \<noteq> [] then insert (g w) known_words else known_words)
     K ls = K \<union> {g w | w. w \<in> f ` set ls \<and> w \<noteq> []}"
  by (induction ls arbitrary: K) (auto simp: Let_def)

text \<open>
  C5, as the specification words it, fails for a path that names a regular file that
  cannot be read: the loader tests that the file exists, not that it can be opened,
  and the failure of the unguarded \<open>open\<close> leaves the loader as an exception
  instead of an empty set.
\<close>

theorem load_known_words_unreadable_counterexample:
  "isfile sample_env ''locked.txt''
   \<and> read_text sample_env ''locked.txt'' = Inl OSError
   \<and> load_known_words sample_env (Some ''locked.txt'') = Inl OSError
   \<and> load_known_words sample_env (Some ''locked.txt'') \<noteq> Inr {}"
  by (simp add: load_known_words_def sample_simps)

text \<open>
  C5, amended. The loader returns the empty set when no path is given, when the path
  is empty or when it does not name an existing regular file. When the path names a
  regular file that can be opened and decoded, it returns the set of the words
  obtained from the lines of the file by stripping whitespace, lowercasing, leaving
  out what is then empty and normalizing with category NOUN; being a set, it holds
  every word once. When the file cannot be opened or decoded, the loader ends with
  the exception.
\<close>

theorem load_known_words_spec:
  "(filepath = None \<or> filepath = Some [] \<or> (\<exists>p. filepath = Some p \<and> \<not> isfile e p)
      \<longrightarrow> load_known_words e filepath = Inr {})
   \<and> (p \<noteq> [] \<and> isfile e p \<and> read_text e p = Inr content
      \<longrightarrow> load_known_words e (Some p) =
            Inr {normalize_word e w (Some NOUN) | w.
                   w \<in> (\<lambda>line. lower e (strip e line)) ` set (readlines [] content) \<and> w \<noteq> []})
   \<and> (q \<noteq> [] \<and> isfile e q \<and> read_text e q = Inl err
      \<longrightarrow> load_known_words e (Some q) = Inl err)"
proof -
  have "normalize_word e w None = normalize_word e w (Some NOUN)" for w
    by (simp add: normalize_word_def)
  then show ?thesis
    using known_words_loop [of "\<lambda>line. lower e (strip e line)" "\<lambda>w. normalize_word e w None" "{}"]
    by (auto simp: load_known_words_def)
qed

theorem load_known_words_spec_witness:
  "\<not> isfile sample_env ''missing.txt''
   \<and> load_known_words sample_env (Some ''missing.txt'') = Inr {}
   \<and> isfile sample_env ''known.txt''
   \<and> read_text sample_env ''known.txt'' = Inr ''cat\<newline>  \<newline> Runs \<newline>cats''
   \<and> readlines [] ''cat\<newline>  \<newline> Runs \<newline>cats''
       = [''cat\<newline>'', ''  \<newline>'', '' Runs \<newline>'', ''cats'']
   \<and> load_known_words sample_env (Some ''known.txt'') = Inr {''cat'', ''run''}
   \<and> {normalize_word sample_env w (Some NOUN) | w.
         w \<in> (\<lambda>line. lower sample_env (strip sample_env line))
               ` set (readlines [] ''cat\<newline>  \<newline> Runs \<newline>cats'') \<and> w \<noteq> []}
       = {''cat'', ''run''}"
proof -
  have missing: "\<not> isfile sample_env ''missing.txt''"
    by (simp add: sample_simps)
  have "Some ''missing.txt'' = None \<or> Some ''missing.txt'' = Some []
        \<or> (\<exists>p. Some ''missing.txt'' = Some p \<and> \<not> isfile sample_env p)"
    using missing by simp
  with load_known_words_spec [of "Some ''missing.txt''" sample_env]
  have empty: "load_known_words sample_env (Some ''missing.txt'') = Inr {}"
    by blast
  have lines: "readlines [] ''cat\<newline>  \<newline> Runs \<newline>cats''
      = [''cat\<newline>'', ''  \<newline>'', '' Runs \<newline>'', ''cats'']"
    by simp
  have present: "''known.txt'' \<noteq> [] \<and> isfile sample_env ''known.txt''
      \<and> read_text sample_env ''known.txt'' = Inr ''cat\<newline>  \<newline> Runs \<newline>cats''"
    by (simp add: sample_simps)
  have direct: "load_known_words sample_env (Some ''known.txt'') = Inr {''cat'', ''run''}"
    by (simp add: load_known_words_def normalize_word_def strip_def sample_simps insert_commute)
  from load_known_words_spec
      [of None sample_env "''known.txt''" "''cat\<newline>  \<newline> Runs \<newline>cats''", THEN conjunct2]
    present
  have "load_known_words sample_env (Some ''known.txt'') =
        Inr {normalize_word sample_env w (Some NOUN) | w.
               w \<in> (\<lambda>line. lower sample_env (strip sample_env line))
                     ` set (readlines [] ''cat\<newline>  \<newline> Runs \<newline>cats'') \<and> w \<noteq> []}"
    by (rule conjunct1 [THEN mp])
  with direct have "{normalize_word sample_env w (Some NOUN) | w.
         w \<in> (\<lambda>line. lower sample_env (strip sample_env line))
               ` set (readlines [] ''cat\<newline>  \<newline> Runs \<newline>cats'') \<and> w \<noteq> []}
       = {''cat'', ''run''}"
    by (simp only: sum.inject)
  with missing empty lines present direct show ?thesis by (simp only: simp_thms)
qed

section \<open>No list of known words\<close>

lemma classify_empty_known:
  "excluded_freq (classify ws {}) = [] \<and> unknown_freq (classify ws {}) = all_freq (classify ws {})"
  by (simp add: classify_def Counter_def)

lemma output_directory_no_tables: "output_directory e default_dir od \<noteq> Inl (Tables t)"
  by (simp add: output_directory_def split: option.splits)

text \<open>
  C6. When no known-words file is given, or the path is empty or names no regular
  file, the loader returns the empty set; with the empty set, for every list of lemmas
  the known table is empty and the unknown table is the table of all words; and so
  are the tables of every run of \<open>main\<close> that gets to them.
\<close>

theorem absent_known_words_file:
  assumes "known_words_file a = None \<or> known_words_file a = Some []
           \<or> (\<exists>p. known_words_file a = Some p \<and> \<not> isfile e p)"
  shows "load_known_words e (known_words_file a) = Inr {}
         \<and> excluded_freq (classify ws {}) = []
         \<and> unknown_freq (classify ws {}) = all_freq (classify ws {})
         \<and> (\<forall>t. main e default_dir a = Tables t
                \<longrightarrow> excluded_freq t = [] \<and> unknown_freq t = all_freq t)"
proof -
  from assms have load: "load_known_words e (known_words_file a) = Inr {}"
    by (auto simp: load_known_words_def)
  have "excluded_freq t = [] \<and> unknown_freq t = all_freq t"
    if "main e default_dir a = Tables t" for t
  proof -
    from that load obtain ws' where "t = classify ws' {}"
      by (auto simp: main_def output_directory_no_tables split: if_splits sum.splits option.splits)
    then show ?thesis by (simp add: classify_empty_known)
  qed
  with load show ?thesis by (simp add: classify_empty_known)
qed

theorem absent_known_words_file_witness:
  "main sample_env ''results/doc''
     \<lparr>pdf_path = ''doc.pdf'', num_top_words = 10, known_words_file = None, output_dir = None\<rparr>
   = Tables \<lparr>excluded_freq = [],
             unknown_freq = [(''cat'', 1), (''run'', 2), (''catcat'', 1), (''fast'', 1)],
             all_freq = [(''cat'', 1), (''run'', 2), (''catcat'', 1), (''fast'', 1)]\<rparr>"
  using absent_known_words_file [of
      "\<lparr>pdf_path = ''doc.pdf'', num_top_words = 10, known_words_file = None, output_dir = None\<rparr>"
      sample_env "[]" "''results/doc''"]
  by (simp add: program_simps sample_simps)

section \<open>Text without words\<close>

lemma dropWhile_all_iff: "(\<forall>c \<in> set (dropWhile P s). P c) \<longleftrightarrow> (\<forall>c \<in> set s. P c)"
  by (induction s) auto

lemma strip_empty_iff: "strip e s = [] \<longleftrightarrow> (\<forall>c \<in> set s. isspace e c)"
  by (simp add: strip_def dropWhile_eq_Nil_conv dropWhile_all_iff)

lemma main_with_lemmas:
  assumes "isfile e (pdf_path a)" "endswith (lower e (pdf_path a)) ''.pdf''"
    and "0 < num_top_words a"
    and "output_directory e default_dir (output_dir a) = Inr dir"
    and "load_known_words e (known_words_file a) = Inr known"
  shows "main e default_dir a =
           (case process_pdf e (pdf_path a) of
              None \<Rightarrow> SysExit 1
            | Some ws \<Rightarrow> Tables (classify ws known))"
  using assms by (simp add: main_def)

lemma main_tables_only_with_lemmas:
  "main e default_dir a = Tables t \<Longrightarrow> \<exists>ws. process_pdf e (pdf_path a) = Some ws"
  by (auto simp: main_def output_directory_no_tables split: if_splits sum.splits option.splits)

text \<open>
  C8. When the text collected from the pages is empty or holds whitespace only,
  \<open>process_pdf\<close> returns \<open>None\<close>, whatever the stopwords, the lemmatizer, the
  dictionary and the tagger are: none of them is consulted. No run of \<open>main\<close> on
  that document yields tables, and a run that has passed the checks of its arguments
  and loaded the known words ends with exit status 1.
\<close>

theorem process_pdf_no_data:
  assumes "extract_pages e p = Some pages"
    and "\<forall>c \<in> set (page_texts pages). isspace e c"
  shows "process_pdf e p = None
         \<and> process_pdf (e\<lparr>stop_words := sw, lemmatize := lem, morphy := mor, pos_tag := tg\<rparr>) p = None
         \<and> (pdf_path a = p \<longrightarrow> (\<forall>t. main e default_dir a \<noteq> Tables t))
         \<and> (pdf_path a = p \<and> isfile e p \<and> endswith (lower e p) ''.pdf''
              \<and> 0 < num_top_words a
              \<and> output_directory e default_dir (output_dir a) = Inr dir
              \<and> load_known_words e (known_words_file a) = Inr known
            \<longrightarrow> main e default_dir a = SysExit 1)"
proof -
  from assms have none: "process_pdf e p = None"
    by (simp add: process_pdf_def strip_empty_iff)
  from assms
  have "process_pdf (e\<lparr>stop_words := sw, lemmatize := lem, morphy := mor, pos_tag := tg\<rparr>) p = None"
    by (simp add: process_pdf_def strip_empty_iff)
  moreover have "main e default_dir a \<noteq> Tables t" if "pdf_path a = p" for t
    using main_tables_only_with_lemmas [of e default_dir a t] none that by auto
  moreover have "main e default_dir a = SysExit 1"
    if "pdf_path a = p" "isfile e p" "endswith (lower e p) ''.pdf''" "0 < num_top_words a"
      "output_directory e default_dir (output_dir a) = Inr dir"
      "load_known_words e (known_words_file a) = Inr known"
    using main_with_lemmas [of e a default_dir dir known] that none by simp
  ultimately show ?thesis using none by blast
qed

theorem process_pdf_no_data_witness:
  "extract_pages blank_pdf_env ''doc.pdf'' = Some [Some ''  \<newline> '', None, Some []]
   \<and> page_texts [Some ''  \<newline> '', None, Some []] = ''  \<newline>  ''
   \<and> process_pdf blank_pdf_env ''doc.pdf'' = None
   \<and> main blank_pdf_env ''results/doc'' sample_args = SysExit 1"
proof -
  have pages: "extract_pages blank_pdf_env ''doc.pdf'' = Some [Some ''  \<newline> '', None, Some []]"
    by (simp add: blank_pdf_env_def)
  have collected: "page_texts [Some ''  \<newline> '', None, Some []] = ''  \<newline>  ''"
    by (simp add: page_texts_def)
  have blank: "\<forall>c \<in> set (page_texts [Some ''  \<newline> '', None, Some []]). isspace blank_pdf_env c"
    unfolding collected by (simp add: blank_pdf_env_def sample_simps)
  have run: "pdf_path sample_args = ''doc.pdf'' \<and> isfile blank_pdf_env ''doc.pdf''
      \<and> endswith (lower blank_pdf_env ''doc.pdf'') ''.pdf''
      \<and> 0 < num_top_words sample_args
      \<and> output_directory blank_pdf_env ''results/doc'' (output_dir sample_args) = Inr ''results/doc''
      \<and> load_known_words blank_pdf_env (known_words_file sample_args) = Inr {''cat'', ''run''}"
    by (simp add: sample_args_def blank_pdf_env_def endswith_def output_directory_def
        load_known_words_def normalize_word_def strip_def sample_simps insert_commute)
  from process_pdf_no_data [OF pages blank, where a = sample_args
      and default_dir = "''results/doc''" and dir = "''results/doc''" and known = "{''cat'', ''run''}"] run
  have "process_pdf blank_pdf_env ''doc.pdf'' = None
        \<and> main blank_pdf_env ''results/doc'' sample_args = SysExit 1"
    by blast
  with pages collected show ?thesis by simp
qed



section \<open>The keys of the tables\<close>

lemma filtered_words_kept:
  "w \<in> set (filtered_words e text) \<Longrightarrow> w \<notin> stop_words e \<and> \<not> isdigit e w \<and> 3 \<le> length w"
  by (auto simp: filtered_words_def)

lemma keys_classify:
  "keys (excluded_freq (classify ws known)) \<union> keys (unknown_freq (classify ws known))
     \<union> keys (all_freq (classify ws known)) = set ws"
  by (auto simp: classify_def keys_Counter)

text \<open>
  C7, as the specification words it, fails: the filter is applied to the tokens before
  they are lemmatized, and the lemma of a kept token can be a stopword. In the example
  environment \<open>ares\<close> is kept and its lemma \<open>are\<close>, a stopword, is a key of the
  tables.
\<close>

theorem table_keys_counterexample:
  "''are'' \<in> stop_words sample_env
   \<and> clean_and_lemmatize sample_env ''Two ares'' = [''two'', ''are'']
   \<and> ''are'' \<in> keys (unknown_freq (classify (clean_and_lemmatize sample_env ''Two ares'') {}))
   \<and> ''are'' \<in> keys (all_freq (classify (clean_and_lemmatize sample_env ''Two ares'') {}))"
  by (simp add: program_simps sample_simps keys_def)

text \<open>
  C7, amended. When the tagger returns the tokens it was given, every key of each of
  the three tables is the lemma of a token that was found in the text and kept by the
  filter: a token that is no stopword, is not all digits and has length 3 at least. No
  token that is a stopword, all digits or shorter than 3 is lemmatized or counted.
\<close>

theorem table_keys_from_kept_tokens:
  assumes "map fst (pos_tag e (filtered_words e text)) = filtered_words e text"
    and "k \<in> keys (excluded_freq (classify (clean_and_lemmatize e text) known))
           \<union> keys (unknown_freq (classify (clean_and_lemmatize e text) known))
           \<union> keys (all_freq (classify (clean_and_lemmatize e text) known))"
  shows "\<exists>w tag. (w, tag) \<in> set (pos_tag e (filtered_words e text))
           \<and> k = normalize_word e w (Some (get_wordnet_pos tag))
           \<and> w \<in> set (findall_words e [] (lower e (unwrap_lines text)))
           \<and> w \<notin> stop_words e \<and> \<not> isdigit e w \<and> 3 \<le> length w"
proof -
  from assms(2) have "k \<in> set (clean_and_lemmatize e text)"
    using keys_classify [of "clean_and_lemmatize e text" known] by blast
  then obtain w tag where wt: "(w, tag) \<in> set (pos_tag e (filtered_words e text))"
    and k: "k = normalize_word e w (Some (get_wordnet_pos tag))"
    by (auto simp: clean_and_lemmatize_def)
  from wt have "w \<in> set (map fst (pos_tag e (filtered_words e text)))"
    by force
  with assms(1) have kept: "w \<in> set (filtered_words e text)"
    by simp
  then have "w \<in> set (findall_words e [] (lower e (unwrap_lines text)))"
    by (simp add: filtered_words_def)
  with wt k kept filtered_words_kept [of w e "text"] show ?thesis by blast
qed

theorem table_keys_from_kept_tokens_witness:
  "filtered_words sample_env ''The cats are running. Cat-\<newline>Cat runs fast.''
     = [''cats'', ''running'', ''catcat'', ''runs'', ''fast'']
   \<and> pos_tag sample_env [''cats'', ''running'', ''catcat'', ''runs'', ''fast'']
     = [(''cats'', ''NN''), (''running'', ''VBG''), (''catcat'', ''NN''), (''runs'', ''NN''), (''fast'', ''RB'')]
   \<and> all_freq (classify (clean_and_lemmatize sample_env ''The cats are running. Cat-\<newline>Cat runs fast.'') {''cat''})
     = [(''cat'', 1), (''run'', 2), (''catcat'', 1), (''fast'', 1)]
   \<and> (\<exists>w tag. (w, tag) \<in> set (pos_tag sample_env
                   (filtered_words sample_env ''The cats are running. Cat-\<newline>Cat runs fast.''))
         \<and> ''run'' = normalize_word sample_env w (Some (get_wordnet_pos tag))
         \<and> w \<notin> stop_words sample_env \<and> \<not> isdigit sample_env w \<and> 3 \<le> length w)"
proof -
  have kept: "filtered_words sample_env ''The cats are running. Cat-\<newline>Cat runs fast.''
      = [''cats'', ''running'', ''catcat'', ''runs'', ''fast'']"
    by (simp add: filtered_words_def unwrap_lines_def isdigit_def sample_simps)
  have tagged: "pos_tag sample_env [''cats'', ''running'', ''catcat'', ''runs'', ''fast'']
      = [(''cats'', ''NN''), (''running'', ''VBG''), (''catcat'', ''NN''), (''runs'', ''NN''), (''fast'', ''RB'')]"
    by (simp add: sample_simps)
  have contract: "map fst (pos_tag sample_env
        (filtered_words sample_env ''The cats are running. Cat-\<newline>Cat runs fast.''))
      = filtered_words sample_env ''The cats are running. Cat-\<newline>Cat runs fast.''"
    unfolding kept tagged by simp
  have table: "all_freq (classify (clean_and_lemmatize sample_env
        ''The cats are running. Cat-\<newline>Cat runs fast.'') {''cat''})
      = [(''cat'', 1), (''run'', 2), (''catcat'', 1), (''fast'', 1)]"
    unfolding clean_and_lemmatize_def kept tagged
    by (simp add: classify_def Counter_def normalize_word_def get_wordnet_pos_def startswith_def
        sample_simps)
  have key: "''run'' \<in> keys (excluded_freq (classify (clean_and_lemmatize sample_env
          ''The cats are running. Cat-\<newline>Cat runs fast.'') {''cat''}))
      \<union> keys (unknown_freq (classify (clean_and_lemmatize sample_env
          ''The cats are running. Cat-\<newline>Cat runs fast.'') {''cat''}))
      \<union> keys (all_freq (classify (clean_and_lemmatize sample_env
          ''The cats are running. Cat-\<newline>Cat runs fast.'') {''cat''}))"
    unfolding table by (simp add: keys_def)
  from table_keys_from_kept_tokens [OF contract key] kept tagged table
  show ?thesis by blast
qed

section \<open>The tokenizer\<close>

lemma replace_newline:
  "replace ''\<newline>'' '' '' s = map (\<lambda>c. if c = CHR ''\<newline>'' then CHR '' '' else c) s"
  by (induction s) auto

lemma replace_wrap_absent:
  "\<not> (\<exists>a b. s = a @ ''-\<newline>'' @ b) \<Longrightarrow> replace ''-\<newline>'' [] s = s"
proof (induction s)
  case Nil
  then show ?case by simp
next
  case (Cons c cs)
  have "\<not> (\<exists>a b. cs = a @ ''-\<newline>'' @ b)"
  proof
    assume "\<exists>a b. cs = a @ ''-\<newline>'' @ b"
    then obtain a b where "cs = a @ ''-\<newline>'' @ b" by blast
    then have "c # cs = (c # a) @ ''-\<newline>'' @ b" by simp
    with Cons.prems show False by blast
  qed
  with Cons.IH have rest: "replace ''-\<newline>'' [] cs = cs" by simp
  have "take 2 (c # cs) \<noteq> ''-\<newline>''"
  proof
    assume "take 2 (c # cs) = ''-\<newline>''"
    then have "c # cs = [] @ ''-\<newline>'' @ drop 2 (c # cs)"
      by (metis append_Nil append_take_drop_id)
    with Cons.prems show False by blast
  qed
  with rest show ?case by auto
qed

lemma replace_wrap_append:
  "replace ''-\<newline>'' [] (a @ ''-\<newline>'' @ b) = replace ''-\<newline>'' [] a @ replace ''-\<newline>'' [] b"
  by (induction a rule: induct_list012) auto

lemma unwrap_lines_append:
  "unwrap_lines (a @ ''-\<newline>'' @ b) = unwrap_lines a @ unwrap_lines b"
  unfolding unwrap_lines_def replace_wrap_append replace_newline by simp

lemma findall_words_gap:
  "\<forall>c \<in> set gap. \<not> isword e c \<Longrightarrow> findall_words e [] (gap @ s) = findall_words e [] s"
  by (induction gap) auto

lemma findall_words_run:
  "\<forall>c \<in> set t. isword e c \<Longrightarrow> (case rest of [] \<Rightarrow> True | c # _ \<Rightarrow> \<not> isword e c) \<Longrightarrow>
   findall_words e cur (t @ rest) =
     (if cur @ t = [] then [] else [cur @ t]) @ findall_words e [] rest"
proof (induction t arbitrary: cur)
  case Nil
  then show ?case by (cases rest) auto
next
  case (Cons c t)
  then show ?case by simp
qed

lemma maximal_runs_findall:
  "maximal_runs (isword e) s ts \<Longrightarrow> findall_words e [] s = ts"
proof (induction ts arbitrary: s)
  case Nil
  then have "findall_words e [] (s @ []) = findall_words e [] []"
    by (intro findall_words_gap) simp
  then show ?case by simp
next
  case (Cons t ts)
  then obtain gap rest where s: "s = gap @ t @ rest"
    and gap: "\<forall>c \<in> set gap. \<not> isword e c"
    and t: "t \<noteq> []" "\<forall>c \<in> set t. isword e c"
    and rest: "case rest of [] \<Rightarrow> True | c # _ \<Rightarrow> \<not> isword e c"
    and runs: "maximal_runs (isword e) rest ts"
    by auto
  from gap have "findall_words e [] s = findall_words e [] (t @ rest)"
    unfolding s by (rule findall_words_gap)
  also from t rest have "\<dots> = [t] @ findall_words e [] rest"
    using findall_words_run [of t e rest "[]"] by simp
  also from runs have "findall_words e [] rest = ts"
    by (rule Cons.IH)
  finally show ?case by simp
qed

lemma findall_maximal_runs:
  "maximal_runs (isword e) s (findall_words e [] s)"
proof (induction "length s" arbitrary: s rule: less_induct)
  case less
  define gap where "gap = takeWhile (\<lambda>c. \<not> isword e c) s"
  define s1 where "s1 = dropWhile (\<lambda>c. \<not> isword e c) s"
  define t where "t = takeWhile (isword e) s1"
  define rest where "rest = dropWhile (isword e) s1"
  have s: "s = gap @ s1" and s1: "s1 = t @ rest"
    by (simp_all add: gap_def s1_def t_def rest_def)
  have gap: "\<forall>c \<in> set gap. \<not> isword e c"
    unfolding gap_def by (auto dest: set_takeWhileD)
  have t: "\<forall>c \<in> set t. isword e c"
    unfolding t_def by (auto dest: set_takeWhileD)
  have rest: "case rest of [] \<Rightarrow> True | c # _ \<Rightarrow> \<not> isword e c"
  proof (cases rest)
    case Nil
    then show ?thesis by (simp only: list.case)
  next
    case (Cons c cs)
    with hd_dropWhile [of "isword e" s1] show ?thesis
      unfolding rest_def by simp
  qed
  from gap have skip: "findall_words e [] s = findall_words e [] s1"
    unfolding s by (rule findall_words_gap)
  show ?case
  proof (cases "s1 = []")
    case True
    with skip s gap show ?thesis by simp
  next
    case False
    then have "isword e (hd s1)"
      unfolding s1_def using hd_dropWhile [of "\<lambda>c. \<not> isword e c" s] by simp
    with False have "t \<noteq> []"
      unfolding t_def by (cases s1) auto
    then have "length rest < length s"
      unfolding s s1 by simp
    then have "maximal_runs (isword e) rest (findall_words e [] rest)"
      by (rule less)
    moreover from t rest \<open>t \<noteq> []\<close> have "findall_words e [] s = t # findall_words e [] rest"
      using findall_words_run [of t e rest "[]"] skip s1 by simp
    ultimately show ?thesis
      using s s1 gap t rest \<open>t \<noteq> []\<close> by auto
  qed
qed

lemma findall_words_nonempty: "w \<in> set (findall_words e [] s) \<Longrightarrow> w \<noteq> []"
proof -
  have "[] \<notin> set ts" if "maximal_runs P s ts" for P s ts
    using that by (induction ts arbitrary: s) auto
  from this [OF findall_maximal_runs] show "w \<in> set (findall_words e [] s) \<Longrightarrow> w \<noteq> []"
    by blast
qed

text \<open>
  C3. For every text: a hyphen followed by a line break is taken out wherever it
  stands, the pieces on its two sides being treated on their own and put together, and
  a text without such a pair only has its line breaks turned into spaces; this is done
  to the raw text, before it is lowercased. The words found in the lowercased text are
  exactly its maximal runs of word characters, from left to right. The tokens kept are
  those words, in the same order, that are not dropped, and the ones dropped are
  exactly the stopwords, the words made of digits only and the words shorter than 3.
\<close>

theorem filtered_words_spec:
  "unwrap_lines (a @ ''-\<newline>'' @ b) = unwrap_lines a @ unwrap_lines b
   \<and> (\<not> (\<exists>a b. s = a @ ''-\<newline>'' @ b)
        \<longrightarrow> unwrap_lines s = map (\<lambda>c. if c = CHR ''\<newline>'' then CHR '' '' else c) s)
   \<and> (maximal_runs (isword e) (lower e (unwrap_lines txt)) ts
        \<longleftrightarrow> ts = findall_words e [] (lower e (unwrap_lines txt)))
   \<and> filtered_words e txt =
       filter (\<lambda>w. \<not> (w \<in> stop_words e \<or> (\<forall>c \<in> set w. isdigit_char e c) \<or> length w < 3))
         (findall_words e [] (lower e (unwrap_lines txt)))"
proof -
  have "unwrap_lines s = map (\<lambda>c. if c = CHR ''\<newline>'' then CHR '' '' else c) s"
    if "\<not> (\<exists>a b. s = a @ ''-\<newline>'' @ b)"
    using replace_wrap_absent [OF that] by (simp add: unwrap_lines_def replace_newline)
  moreover have "maximal_runs (isword e) (lower e (unwrap_lines txt)) ts
      \<longleftrightarrow> ts = findall_words e [] (lower e (unwrap_lines txt))"
    using maximal_runs_findall [of e "lower e (unwrap_lines txt)" ts]
      findall_maximal_runs [of e "lower e (unwrap_lines txt)"] by auto
  moreover have "filtered_words e txt =
       filter (\<lambda>w. \<not> (w \<in> stop_words e \<or> (\<forall>c \<in> set w. isdigit_char e c) \<or> length w < 3))
         (findall_words e [] (lower e (unwrap_lines txt)))"
    unfolding filtered_words_def Let_def
    by (rule filter_cong) (auto simp: isdigit_def list_all_iff dest: findall_words_nonempty)
  ultimately show ?thesis
    using unwrap_lines_append by blast
qed

theorem filtered_words_spec_witness:
  "unwrap_lines (''Cat'' @ ''-\<newline>'' @ ''Cat'') = ''CatCat''
   \<and> \<not> (\<exists>a b. ''a\<newline>b'' = a @ ''-\<newline>'' @ b)
   \<and> unwrap_lines ''a\<newline>b'' = ''a b''
   \<and> maximal_runs (isword sample_env)
        (lower sample_env (unwrap_lines ''The cats are running. Cat-\<newline>Cat runs fast. 12 ab''))
        [''the'', ''cats'', ''are'', ''running'', ''catcat'', ''runs'', ''fast'', ''12'', ''ab'']
   \<and> filtered_words sample_env ''The cats are running. Cat-\<newline>Cat runs fast. 12 ab''
       = [''cats'', ''running'', ''catcat'', ''runs'', ''fast'']"
proof -
  note spec = filtered_words_spec [of "''Cat''" "''Cat''" "''a\<newline>b''" sample_env
      "''The cats are running. Cat-\<newline>Cat runs fast. 12 ab''"
      "[''the'', ''cats'', ''are'', ''running'', ''catcat'', ''runs'', ''fast'', ''12'', ''ab'']"]
  have absent: "\<not> (\<exists>a b. ''a\<newline>b'' = a @ ''-\<newline>'' @ b)"
    by (auto simp: Cons_eq_append_conv)
  have joined: "unwrap_lines (''Cat'' @ ''-\<newline>'' @ ''Cat'') = ''CatCat''"
    by (simp add: unwrap_lines_def)
  from spec absent have spaced: "unwrap_lines ''a\<newline>b'' = ''a b''"
    by simp
  have found: "findall_words sample_env []
        (lower sample_env (unwrap_lines ''The cats are running. Cat-\<newline>Cat runs fast. 12 ab''))
      = [''the'', ''cats'', ''are'', ''running'', ''catcat'', ''runs'', ''fast'', ''12'', ''ab'']"
    by (simp add: unwrap_lines_def sample_simps)
  from spec found have runs: "maximal_runs (isword sample_env)
        (lower sample_env (unwrap_lines ''The cats are running. Cat-\<newline>Cat runs fast. 12 ab''))
        [''the'', ''cats'', ''are'', ''running'', ''catcat'', ''runs'', ''fast'', ''12'', ''ab'']"
    by (simp only: simp_thms)
  have kept: "filtered_words sample_env ''The cats are running. Cat-\<newline>Cat runs fast. 12 ab''
      = [''cats'', ''running'', ''catcat'', ''runs'', ''fast'']"
    by (simp add: filtered_words_def unwrap_lines_def isdigit_def sample_simps)
  from joined absent spaced runs kept show ?thesis
    by (simp only: simp_thms)
qed

end
